theory Spec2Isabelle
  imports Main
begin

section \<open>Strings\<close>

text \<open>
  A Python \<open>str\<close> is a sequence of Unicode code points. \<open>str_of\<close> gives the \<open>str\<close> of an
  ASCII literal.
\<close>

type_synonym str = "nat list"

definition str_of :: "string \<Rightarrow> str" where
  "str_of s = map of_char s"

text \<open>
  \<open>str.upper\<close> replaces every code point by its full uppercase mapping, which is one to
  three code points long, and concatenates the results; the length of the text may change
  (the sharp s, code point 223, becomes \<open>SS\<close>). On ASCII the mapping sends \<open>a\<close> .. \<open>z\<close> (97 ..
  122) to \<open>A\<close> .. \<open>Z\<close> and keeps every other code point. For the code points from 128 on
  the mapping is the table of the Unicode character database that the Python runtime
  carries; it is not part of the sources, and the model takes it as the parameter \<open>U\<close>.
\<close>

type_synonym upper_table = "nat \<Rightarrow> nat list"

definition to_upper_full :: "upper_table \<Rightarrow> nat \<Rightarrow> nat list" where
  "to_upper_full U c =
     (if 97 \<le> c \<and> c \<le> 122 then [c - 32] else if c < 128 then [c] else U c)"

definition str_upper :: "upper_table \<Rightarrow> str \<Rightarrow> str" where
  "str_upper U text = concat (map (to_upper_full U) text)"


section \<open>The request/response workflow (reqrespupdate/workflow.py)\<close>

subsection \<open>Data classes\<close>

record UppercaseParams =
  initial_message :: str
  previous_responses :: "str \<rightharpoonup> str"

record Request =
  id' :: str
  input :: str

text \<open>The activity: \<open>return text.upper()\<close>.\<close>

definition uppercase_activity :: "upper_table \<Rightarrow> str \<Rightarrow> str" where
  "uppercase_activity U text = str_upper U text"

subsection \<open>Workflow state\<close>

text \<open>
  The coroutine \<open>run\<close> suspends at two places: at \<open>workflow.wait_condition\<close> and at
  \<open>workflow.execute_activity\<close>, the latter with the dequeued request \<open>req\<close> as its
  live local variable. \<open>workflow.continue_as_new\<close> ends the run and hands the new
  parameters to the runtime. Awaiting \<open>self.set_response\<close> does not suspend: the
  coroutine has no await of its own.
\<close>

datatype run_pc =
    AtWaitCondition
  | AtExecuteActivity Request
  | ContinuedAsNew UppercaseParams

text \<open>
  The fields of \<open>self\<close>, the place where \<open>run\<close> is suspended, and the request ids that
  \<open>workflow.logger.error\<close> has reported.
\<close>

record UppercaseWorkflowUpdate =
  requests_buffer :: "Request list"
  responses_map :: "str \<rightharpoonup> str"
  request_count :: int
  pending_updates :: int
  threshold_for_continue :: int
  self_initial_message :: str
  run_at :: run_pc
  error_log :: "str list"

text \<open>
  \<open>__init__\<close>, followed by the first statement of \<open>run\<close> (which stores
  \<open>params.initial_message\<close> once more) up to the first \<open>wait_condition\<close>.
  An empty dictionary is falsy, so \<open>previous_responses.copy() if previous_responses else {}\<close>
  tests for emptiness.
\<close>

definition UppercaseWorkflowUpdate_init :: "UppercaseParams \<Rightarrow> UppercaseWorkflowUpdate" where
  "UppercaseWorkflowUpdate_init params =
     \<lparr> requests_buffer = [],
       responses_map =
         (if previous_responses params \<noteq> Map.empty then previous_responses params
          else Map.empty),
       request_count = 0,
       pending_updates = 0,
       threshold_for_continue = 5,
       self_initial_message = initial_message params,
       run_at = AtWaitCondition,
       error_log = [] \<rparr>"

subsection \<open>Handlers\<close>

text \<open>Signal \<open>request\<close>: \<open>self.requests_buffer.append(req)\<close>.\<close>

definition request :: "UppercaseWorkflowUpdate \<Rightarrow> Request \<Rightarrow> UppercaseWorkflowUpdate" where
  "request s req = s\<lparr>requests_buffer := requests_buffer s @ [req]\<rparr>"

text \<open>Update \<open>set_response\<close>: \<open>self.responses_map[req_id] = result; return True\<close>.\<close>

definition set_response ::
  "UppercaseWorkflowUpdate \<Rightarrow> str \<Rightarrow> str \<Rightarrow> bool \<times> UppercaseWorkflowUpdate" where
  "set_response s req_id result = (True, s\<lparr>responses_map := (responses_map s)(req_id \<mapsto> result)\<rparr>)"

text \<open>Query \<open>get_response\<close>: \<open>self.responses_map.get(req_id, "")\<close>.\<close>

definition get_response :: "UppercaseWorkflowUpdate \<Rightarrow> str \<Rightarrow> str" where
  "get_response s req_id = (case responses_map s req_id of None \<Rightarrow> [] | Some r \<Rightarrow> r)"

subsection \<open>The main loop\<close>

text \<open>
  The test after the inner loop: when enough requests have been counted and no update is
  pending, the run continues as new with a copy of the responses; otherwise the outer
  loop goes back to \<open>wait_condition\<close>.
\<close>

definition continue_check :: "UppercaseWorkflowUpdate \<Rightarrow> UppercaseWorkflowUpdate" where
  "continue_check s =
     (if request_count s \<ge> threshold_for_continue s \<and> pending_updates s = 0
      then s\<lparr>run_at := ContinuedAsNew
                 \<lparr> initial_message = [], previous_responses = responses_map s \<rparr>\<rparr>
      else s\<lparr>run_at := AtWaitCondition\<rparr>)"

text \<open>
  The head of \<open>while self.requests_buffer\<close>: an empty buffer leaves the loop; otherwise
  \<open>pop(0)\<close>, both counters are incremented and the activity is started for the
  request's input.
\<close>

definition drain_loop :: "UppercaseWorkflowUpdate \<Rightarrow> UppercaseWorkflowUpdate" where
  "drain_loop s =
     (case requests_buffer s of
        [] \<Rightarrow> continue_check s
      | req # rest \<Rightarrow>
          s\<lparr> requests_buffer := rest,
             request_count := request_count s + 1,
             pending_updates := pending_updates s + 1,
             run_at := AtExecuteActivity req \<rparr>)"

text \<open>
  How \<open>execute_activity\<close> ends: it returns what \<open>uppercase_activity\<close> returned, or it
  raises (an activity error, the schedule-to-close timeout).
\<close>

datatype activity_outcome = Completed | Failed

text \<open>
  The rest of the loop body once the activity has ended: \<open>set_response\<close> with the result
  in the \<open>try\<close>, the log entry in \<open>except Exception\<close>, the decrement in \<open>finally\<close>, and
  the loop test again.
\<close>

definition activity_resolved ::
  "upper_table \<Rightarrow> UppercaseWorkflowUpdate \<Rightarrow> Request \<Rightarrow> activity_outcome \<Rightarrow> UppercaseWorkflowUpdate" where
  "activity_resolved U s req out =
     (let s1 = (case out of
                  Completed \<Rightarrow> snd (set_response s (id' req) (uppercase_activity U (input req)))
                | Failed \<Rightarrow> s\<lparr>error_log := error_log s @ [id' req]\<rparr>);
          s2 = s1\<lparr>pending_updates := pending_updates s1 - 1\<rparr>
      in drain_loop s2)"

subsection \<open>Interleaving of the loop with the handlers\<close>

text \<open>
  One workflow instance runs one piece of code at a time; between two suspension points of
  \<open>run\<close> the runtime may deliver signals, updates and queries. An event is a handler
  invocation, the wake-up of \<open>wait_condition\<close> (possible once the buffer is non-empty) or
  the end of the activity \<open>run\<close> is waiting for. A run that has continued as new takes no
  further event.
\<close>

datatype event =
    Signal_request Request
  | Update_set_response str str
  | Query_get_response str
  | WaitConditionMet
  | ActivityEnds activity_outcome

definition step ::
  "upper_table \<Rightarrow> event \<Rightarrow> UppercaseWorkflowUpdate \<Rightarrow> UppercaseWorkflowUpdate option" where
  "step U e s =
     (case run_at s of
        ContinuedAsNew _ \<Rightarrow> None
      | AtWaitCondition \<Rightarrow>
          (case e of
             Signal_request req \<Rightarrow> Some (request s req)
           | Update_set_response req_id result \<Rightarrow> Some (snd (set_response s req_id result))
           | Query_get_response req_id \<Rightarrow> Some s
           | WaitConditionMet \<Rightarrow>
               (if length (requests_buffer s) > 0 then Some (drain_loop s) else None)
           | ActivityEnds out \<Rightarrow> None)
      | AtExecuteActivity req \<Rightarrow>
          (case e of
             Signal_request r \<Rightarrow> Some (request s r)
           | Update_set_response req_id result \<Rightarrow> Some (snd (set_response s req_id result))
           | Query_get_response req_id \<Rightarrow> Some s
           | WaitConditionMet \<Rightarrow> None
           | ActivityEnds out \<Rightarrow> Some (activity_resolved U s req out)))"

fun run_events ::
  "upper_table \<Rightarrow> event list \<Rightarrow> UppercaseWorkflowUpdate \<Rightarrow> UppercaseWorkflowUpdate option" where
  "run_events U [] s = Some s"
| "run_events U (e # es) s =
     (case step U e s of None \<Rightarrow> None | Some s' \<Rightarrow> run_events U es s')"

subsection \<open>History of a run\<close>

text \<open>
  The requests that the loop has processed to the end in the course of the events \<open>es\<close>
  from state \<open>s\<close>: dequeued, the activity completed, the result stored by the loop's
  own call of \<open>set_response\<close>.
\<close>

fun committed ::
  "upper_table \<Rightarrow> event list \<Rightarrow> UppercaseWorkflowUpdate \<Rightarrow> Request list" where
  "committed U [] s = []"
| "committed U (e # es) s =
     (case step U e s of
        None \<Rightarrow> []
      | Some s' \<Rightarrow>
          (case (e, run_at s) of
             (ActivityEnds Completed, AtExecuteActivity req) \<Rightarrow> [req]
           | _ \<Rightarrow> []) @ committed U es s')"

text \<open>
  The facts that hold in every state a run reaches: the threshold stays 5, the counter
  \<open>pending_updates\<close> is 1 exactly while \<open>run\<close> waits for an activity, and a run that has
  continued as new has counted at least five requests.
\<close>

definition queue_inv :: "UppercaseWorkflowUpdate \<Rightarrow> bool" where
  "queue_inv s \<longleftrightarrow>
     threshold_for_continue s = 5 \<and>
     (case run_at s of
        AtWaitCondition \<Rightarrow> pending_updates s = 0
      | AtExecuteActivity req \<Rightarrow> pending_updates s = 1
      | ContinuedAsNew np \<Rightarrow> pending_updates s = 0 \<and> request_count s \<ge> 5)"

subsection \<open>The requester (reqrespupdate/requester.py)\<close>

text \<open>
  \<open>request_uppercase\<close> sends the signal and then queries \<open>get_response\<close> up to 20 times,
  returning the first non-empty response and the empty string when all attempts are used
  up. The workflow moves on between two queries, so the loop is given the states that the
  successive queries read.
\<close>

fun poll :: "str \<Rightarrow> UppercaseWorkflowUpdate list \<Rightarrow> str" where
  "poll req_id [] = []"
| "poll req_id (s # observed) =
     (let response = get_response s req_id
      in if response \<noteq> [] then response else poll req_id observed)"

definition request_uppercase_poll :: "str \<Rightarrow> UppercaseWorkflowUpdate list \<Rightarrow> str" where
  "request_uppercase_poll req_id observed = poll req_id (take 20 observed)"


section \<open>The greeting workflow (message_passing/introduction/workflows.py)\<close>

subsection \<open>Data\<close>

text \<open>
  The enum \<open>Language\<close> is imported from the package, whose \<open>__init__\<close> is not among the
  sources. The workflow names the members \<open>CHINESE\<close> and \<open>ENGLISH\<close>; every further
  member is \<open>OTHER n\<close>.
\<close>

datatype Language = CHINESE | ENGLISH | OTHER nat

text \<open>
  What \<open>execute_activity(call_greeting_service, language, ...)\<close> gives back: the
  activity's \<open>Optional[str]\<close>, or an exception (activity failure, start-to-close timeout).
\<close>

datatype greeting_service_outcome = Returned "str option" | Raised

datatype failure = ValueError | ApplicationError | ActivityError | KeyError

text \<open>
  An execution of \<open>set_language_using_activity\<close> that has not finished is suspended at
  \<open>async with self.lock\<close> or, holding the lock, at \<open>execute_activity\<close>; its local
  variable is the requested language.
\<close>

datatype handler = AwaitingLock Language | AwaitingActivity Language

text \<open>
  The operations of \<open>set_language_using_activity\<close>. The workflow state keeps a history
  of them: each entry is an operation together with the lock's flag at the moment the
  operation is executed.
\<close>

datatype op =
    LockAcquire
  | ExecuteActivity Language
  | InsertGreeting Language
  | LockRelease
  | SwapLanguage Language

text \<open>
  The fields of \<open>self\<close> (\<open>lock\<close> is the \<open>locked\<close> flag of the \<open>asyncio.Lock\<close>), the
  unfinished handler executions in order of arrival, the value \<open>run\<close> has returned, and
  the history.
\<close>

record GreetingWorkflow =
  approved_for_release :: bool
  approver_name :: "str option"
  greetings :: "Language \<rightharpoonup> str"
  language :: Language
  lock :: bool
  handlers :: "handler list"
  run_result :: "(failure + str) option"
  trace :: "(op \<times> bool) list"

text \<open>
  The Chinese greeting of \<open>__init__\<close>: the code points U+4F60, U+597D, U+FF0C, U+4E16,
  U+754C.
\<close>

definition chinese_greeting :: str where
  "chinese_greeting = [0x4F60, 0x597D, 0xFF0C, 0x4E16, 0x754C]"

definition GreetingWorkflow_init :: GreetingWorkflow where
  "GreetingWorkflow_init =
     \<lparr> approved_for_release = False,
       approver_name = None,
       greetings = [CHINESE \<mapsto> chinese_greeting, ENGLISH \<mapsto> (str_of ''Hello, world'')],
       language = ENGLISH,
       lock = False,
       handlers = [],
       run_result = None,
       trace = [] \<rparr>"

subsection \<open>Signal, query and the validated update\<close>

definition approve :: "GreetingWorkflow \<Rightarrow> str \<Rightarrow> GreetingWorkflow" where
  "approve s name = s\<lparr>approved_for_release := True, approver_name := Some name\<rparr>"

definition get_language :: "GreetingWorkflow \<Rightarrow> Language" where
  "get_language s = language s"

text \<open>The validator raises \<open>ValueError\<close> when the language is not a key of \<open>greetings\<close>.\<close>

definition validate_language :: "GreetingWorkflow \<Rightarrow> Language \<Rightarrow> failure + unit" where
  "validate_language s l = (if greetings s l = None then Inl ValueError else Inr ())"

text \<open>\<open>previous_language, self.language = self.language, language; return previous_language\<close>.\<close>

definition set_language :: "GreetingWorkflow \<Rightarrow> Language \<Rightarrow> Language \<times> GreetingWorkflow" where
  "set_language s l = (language s, s\<lparr>language := l\<rparr>)"

text \<open>
  The update as the runtime performs it: the validator first; when it raises, the update
  is rejected and the handler is not run.
\<close>

definition set_language_update ::
  "GreetingWorkflow \<Rightarrow> Language \<Rightarrow> (failure + Language) \<times> GreetingWorkflow" where
  "set_language_update s l =
     (case validate_language s l of
        Inl err \<Rightarrow> (Inl err, s)
      | Inr _ \<Rightarrow> (case set_language s l of (previous_language, s') \<Rightarrow> (Inr previous_language, s')))"

subsection \<open>The update that calls the greeting service\<close>

fun is_waiting :: "handler \<Rightarrow> bool" where
  "is_waiting (AwaitingLock l) = True"
| "is_waiting (AwaitingActivity l) = False"

text \<open>The first waiter gets the lock and goes on to \<open>execute_activity\<close>.\<close>

fun grant_first :: "handler list \<Rightarrow> handler list" where
  "grant_first [] = []"
| "grant_first (AwaitingLock l # hs) = AwaitingActivity l # hs"
| "grant_first (AwaitingActivity l # hs) = AwaitingActivity l # grant_first hs"

fun first_waiting :: "handler list \<Rightarrow> Language option" where
  "first_waiting [] = None"
| "first_waiting (AwaitingLock l # hs) = Some l"
| "first_waiting (AwaitingActivity l # hs) = first_waiting hs"

text \<open>The execution that waits for the activity, and the list without it.\<close>

fun active_language :: "handler list \<Rightarrow> Language option" where
  "active_language [] = None"
| "active_language (AwaitingActivity l # hs) = Some l"
| "active_language (AwaitingLock l # hs) = active_language hs"

fun remove_active :: "handler list \<Rightarrow> handler list" where
  "remove_active [] = []"
| "remove_active (AwaitingActivity l # hs) = hs"
| "remove_active (AwaitingLock l # hs) = AwaitingLock l # remove_active hs"

definition log_op :: "GreetingWorkflow \<Rightarrow> op \<Rightarrow> GreetingWorkflow" where
  "log_op s x = s\<lparr>trace := trace s @ [(x, lock s)]\<rparr>"

text \<open>The last two lines of the handler, after the \<open>if\<close> block.\<close>

definition swap_language :: "GreetingWorkflow \<Rightarrow> Language \<Rightarrow> Language \<times> GreetingWorkflow" where
  "swap_language s l = (language s, log_op (s\<lparr>language := l\<rparr>) (SwapLanguage l))"

text \<open>
  Entering \<open>async with self.lock\<close> once the lock is available, and leaving it, by the end
  of the block or by an exception.
\<close>

definition lock_acquire :: "GreetingWorkflow \<Rightarrow> GreetingWorkflow" where
  "lock_acquire s = log_op (s\<lparr>lock := True\<rparr>) LockAcquire"

definition lock_release :: "GreetingWorkflow \<Rightarrow> GreetingWorkflow" where
  "lock_release s = log_op (s\<lparr>lock := False\<rparr>) LockRelease"

text \<open>
  The handler from its start to its first suspension or its end. A supported language
  skips the \<open>if\<close> block and the handler ends at once with the previous language.
  Otherwise \<open>asyncio.Lock.acquire\<close> takes a free lock that nobody waits for and the
  activity is started; a held lock, or waiters in front, suspends the handler.
\<close>

definition set_language_using_activity ::
  "GreetingWorkflow \<Rightarrow> Language \<Rightarrow> Language option \<times> GreetingWorkflow" where
  "set_language_using_activity s l =
     (if greetings s l = None then
        (if \<not> lock s \<and> \<not> list_ex is_waiting (handlers s)
         then (None, log_op (lock_acquire (s\<lparr>handlers := handlers s @ [AwaitingActivity l]\<rparr>))
                            (ExecuteActivity l))
         else (None, s\<lparr>handlers := handlers s @ [AwaitingLock l]\<rparr>))
      else (case swap_language s l of (previous_language, s') \<Rightarrow> (Some previous_language, s')))"

text \<open>A released lock wakes the first waiter, which takes the lock and starts its activity.\<close>

definition lock_granted :: "GreetingWorkflow \<Rightarrow> Language \<Rightarrow> GreetingWorkflow" where
  "lock_granted s l =
     log_op (lock_acquire (s\<lparr>handlers := grant_first (handlers s)\<rparr>)) (ExecuteActivity l)"

text \<open>
  The handler from the end of its activity on. An exception of the activity and the
  \<open>ApplicationError\<close> for \<open>greeting is None\<close> leave the \<open>async with\<close> block and fail the
  update. Otherwise the greeting is stored inside the block, the block is left, and the
  two lines after the \<open>if\<close> swap the language.
\<close>

definition activity_ended ::
  "GreetingWorkflow \<Rightarrow> Language \<Rightarrow> greeting_service_outcome \<Rightarrow>
     (failure + Language) \<times> GreetingWorkflow" where
  "activity_ended s l out =
     (let s0 = s\<lparr>handlers := remove_active (handlers s)\<rparr>
      in case out of
           Raised \<Rightarrow> (Inl ActivityError, lock_release s0)
         | Returned None \<Rightarrow> (Inl ApplicationError, lock_release s0)
         | Returned (Some greeting) \<Rightarrow>
             (let s1 = log_op (s0\<lparr>greetings := (greetings s0)(l \<mapsto> greeting)\<rparr>)
                              (InsertGreeting l);
                  s2 = lock_release s1
              in case swap_language s2 l of
                   (previous_language, s3) \<Rightarrow> (Inr previous_language, s3)))"

subsection \<open>The run method\<close>

text \<open>
  \<open>run\<close> waits until \<open>approved_for_release and workflow.all_handlers_finished()\<close> and
  returns \<open>self.greetings[self.language]\<close>; a missing key raises \<open>KeyError\<close>.
\<close>

definition all_handlers_finished :: "GreetingWorkflow \<Rightarrow> bool" where
  "all_handlers_finished s \<longleftrightarrow> handlers s = []"

definition run_return :: "GreetingWorkflow \<Rightarrow> GreetingWorkflow" where
  "run_return s =
     s\<lparr>run_result :=
         Some (case greetings s (language s) of None \<Rightarrow> Inl KeyError | Some g \<Rightarrow> Inr g)\<rparr>"

subsection \<open>Interleaving\<close>

text \<open>
  What a caller of an update or a query gets back, if anything: a language, a failure,
  or nothing yet because the handler is suspended.
\<close>

datatype reply = NoReply | Suspended | Replied Language | Failed_with failure

fun update_reply :: "failure + Language \<Rightarrow> reply" where
  "update_reply (Inl err) = Failed_with err"
| "update_reply (Inr l) = Replied l"

datatype g_event =
    Signal_approve str
  | Query_get_language
  | Update_set_language Language
  | Update_set_language_using_activity Language
  | LockGranted
  | GreetingServiceEnds greeting_service_outcome
  | RunConditionMet

text \<open>A workflow whose \<open>run\<close> has returned is closed and takes no further event.\<close>

definition g_step :: "g_event \<Rightarrow> GreetingWorkflow \<Rightarrow> (reply \<times> GreetingWorkflow) option" where
  "g_step e s =
     (if run_result s \<noteq> None then None
      else case e of
        Signal_approve name \<Rightarrow> Some (NoReply, approve s name)
      | Query_get_language \<Rightarrow> Some (Replied (get_language s), s)
      | Update_set_language l \<Rightarrow>
          (case set_language_update s l of (r, s') \<Rightarrow> Some (update_reply r, s'))
      | Update_set_language_using_activity l \<Rightarrow>
          (case set_language_using_activity s l of
             (None, s') \<Rightarrow> Some (Suspended, s')
           | (Some previous_language, s') \<Rightarrow> Some (Replied previous_language, s'))
      | LockGranted \<Rightarrow>
          (if lock s then None
           else case first_waiting (handlers s) of
                  None \<Rightarrow> None
                | Some l \<Rightarrow> Some (Suspended, lock_granted s l))
      | GreetingServiceEnds out \<Rightarrow>
          (case active_language (handlers s) of
             None \<Rightarrow> None
           | Some l \<Rightarrow> (case activity_ended s l out of (r, s') \<Rightarrow> Some (update_reply r, s')))
      | RunConditionMet \<Rightarrow>
          (if approved_for_release s \<and> all_handlers_finished s then Some (NoReply, run_return s)
           else None))"

fun g_run_events :: "g_event list \<Rightarrow> GreetingWorkflow \<Rightarrow> GreetingWorkflow option" where
  "g_run_events [] s = Some s"
| "g_run_events (e # es) s =
     (case g_step e s of None \<Rightarrow> None | Some (r, s') \<Rightarrow> g_run_events es s')"

text \<open>
  The facts that hold in every state the workflow reaches: the current language is a key
  of \<open>greetings\<close>; the lock is held exactly while one handler execution waits for its
  activity, and no second one does; a returned result was computed with the approval given
  and no handler execution unfinished.
\<close>

definition greeting_inv :: "GreetingWorkflow \<Rightarrow> bool" where
  "greeting_inv s \<longleftrightarrow>
     greetings s (language s) \<noteq> None \<and>
     length (filter (\<lambda>h. \<not> is_waiting h) (handlers s)) = (if lock s then 1 else 0) \<and>
     (case run_result s of
        None \<Rightarrow> True
      | Some r \<Rightarrow>
          approved_for_release s \<and> handlers s = [] \<and>
          (case greetings s (language s) of None \<Rightarrow> False | Some g \<Rightarrow> r = Inr g))"


section \<open>Scenarios\<close>

text \<open>The parameters the starter passes: no message, no earlier responses.\<close>

definition starter_params :: UppercaseParams where
  "starter_params = \<lparr>initial_message = [], previous_responses = Map.empty\<rparr>"

text \<open>
  The entries of the uppercase table that the scenarios need: the sharp s (223) goes to
  \<open>SS\<close> (83, 83) and the e with acute accent (233) to its capital (201).
\<close>

definition scenario_upper :: upper_table where
  "scenario_upper c = (if c = 223 then [83, 83] else if c = 233 then [201] else [c])"

text \<open>Scenario A: the request \<open>{id: "1", input: "foo0"}\<close> is enqueued and drained.\<close>

definition request_1 :: Request where
  "request_1 = \<lparr>id' = (str_of ''1''), input = (str_of ''foo0'')\<rparr>"

definition scenario_A :: "event list" where
  "scenario_A = [Signal_request request_1, WaitConditionMet, ActivityEnds Completed]"

text \<open>The state of scenario A while the activity for the request is running.\<close>

definition in_flight_1 :: UppercaseWorkflowUpdate where
  "in_flight_1 =
     \<lparr> requests_buffer = [], responses_map = Map.empty, request_count = 1,
       pending_updates = 1, threshold_for_continue = 5, self_initial_message = [],
       run_at = AtExecuteActivity request_1, error_log = [] \<rparr>"

text \<open>
  A request whose input is \<open>stra\<close>, the sharp s and \<open>e\<close>, while its activity is running.
\<close>

definition request_strasse :: Request where
  "request_strasse = \<lparr>id' = str_of ''6'', input = str_of ''stra'' @ [223] @ str_of ''e''\<rparr>"

definition in_flight_strasse :: UppercaseWorkflowUpdate where
  "in_flight_strasse =
     \<lparr> requests_buffer = [], responses_map = Map.empty, request_count = 1,
       pending_updates = 1, threshold_for_continue = 5, self_initial_message = [],
       run_at = AtExecuteActivity request_strasse, error_log = [] \<rparr>"

text \<open>The same state with a second request still in the buffer.\<close>

definition request_2 :: Request where
  "request_2 = \<lparr>id' = (str_of ''2''), input = (str_of ''foo1'')\<rparr>"

definition in_flight_1_of_2 :: UppercaseWorkflowUpdate where
  "in_flight_1_of_2 =
     \<lparr> requests_buffer = [request_2], responses_map = Map.empty, request_count = 1,
       pending_updates = 1, threshold_for_continue = 5, self_initial_message = [],
       run_at = AtExecuteActivity request_1, error_log = [] \<rparr>"

text \<open>The state at the end of scenario A.\<close>

definition answered_1 :: UppercaseWorkflowUpdate where
  "answered_1 =
     \<lparr> requests_buffer = [], responses_map = [(str_of ''1'') \<mapsto> (str_of ''FOO0'')], request_count = 1,
       pending_updates = 0, threshold_for_continue = 5, self_initial_message = [],
       run_at = AtWaitCondition, error_log = [] \<rparr>"

text \<open>
  Scenario C: five requests are enqueued and drained. The prefix stops while the activity
  of the fifth request is running; when that activity completes the run continues as new.
\<close>

definition request_3 :: Request where
  "request_3 = \<lparr>id' = (str_of ''3''), input = (str_of ''foo2'')\<rparr>"

definition request_4 :: Request where
  "request_4 = \<lparr>id' = (str_of ''4''), input = (str_of ''foo3'')\<rparr>"

definition request_5 :: Request where
  "request_5 = \<lparr>id' = (str_of ''5''), input = (str_of ''foo4'')\<rparr>"

definition scenario_C_prefix :: "event list" where
  "scenario_C_prefix =
     [Signal_request request_1, Signal_request request_2, Signal_request request_3,
      Signal_request request_4, Signal_request request_5, WaitConditionMet,
      ActivityEnds Completed, ActivityEnds Completed, ActivityEnds Completed,
      ActivityEnds Completed]"

definition responses_4 :: "str \<rightharpoonup> str" where
  "responses_4 =
     [(str_of ''1'') \<mapsto> (str_of ''FOO0''), (str_of ''2'') \<mapsto> (str_of ''FOO1''), (str_of ''3'') \<mapsto> (str_of ''FOO2''), (str_of ''4'') \<mapsto> (str_of ''FOO3'')]"

definition in_flight_5 :: UppercaseWorkflowUpdate where
  "in_flight_5 =
     \<lparr> requests_buffer = [], responses_map = responses_4, request_count = 5,
       pending_updates = 1, threshold_for_continue = 5, self_initial_message = [],
       run_at = AtExecuteActivity request_5, error_log = [] \<rparr>"

definition carried_params :: UppercaseParams where
  "carried_params =
     \<lparr>initial_message = [], previous_responses = responses_4((str_of ''5'') \<mapsto> (str_of ''FOO4''))\<rparr>"

definition continued_5 :: UppercaseWorkflowUpdate where
  "continued_5 =
     \<lparr> requests_buffer = [], responses_map = responses_4((str_of ''5'') \<mapsto> (str_of ''FOO4'')),
       request_count = 5, pending_updates = 0, threshold_for_continue = 5,
       self_initial_message = [], run_at = ContinuedAsNew carried_params, error_log = [] \<rparr>"

text \<open>A client sends the update \<open>set_response\<close> for an id that no request carries.\<close>

definition ghost_write :: "event list" where
  "ghost_write = [Update_set_response (str_of ''ghost'') (str_of ''boo'')]"

definition ghost_state :: UppercaseWorkflowUpdate where
  "ghost_state =
     \<lparr> requests_buffer = [], responses_map = [(str_of ''ghost'') \<mapsto> (str_of ''boo'')], request_count = 0,
       pending_updates = 0, threshold_for_continue = 5, self_initial_message = [],
       run_at = AtWaitCondition, error_log = [] \<rparr>"

text \<open>A request whose input is the empty string, in flight and answered.\<close>

definition request_empty :: Request where
  "request_empty = \<lparr>id' = (str_of ''e''), input = []\<rparr>"

definition in_flight_empty :: UppercaseWorkflowUpdate where
  "in_flight_empty =
     \<lparr> requests_buffer = [], responses_map = Map.empty, request_count = 1,
       pending_updates = 1, threshold_for_continue = 5, self_initial_message = [],
       run_at = AtExecuteActivity request_empty, error_log = [] \<rparr>"

definition answered_empty :: UppercaseWorkflowUpdate where
  "answered_empty =
     \<lparr> requests_buffer = [], responses_map = [(str_of ''e'') \<mapsto> []], request_count = 1,
       pending_updates = 0, threshold_for_continue = 5, self_initial_message = [],
       run_at = AtWaitCondition, error_log = [] \<rparr>"

text \<open>
  Scenario B: \<open>approve("alice")\<close>, then \<open>set_language_using_activity\<close> for a language
  that is not supported yet (\<open>OTHER 4\<close>); the greeting service answers with a greeting,
  and \<open>run\<close> returns.
\<close>

definition french_greeting :: str where
  "french_greeting = (str_of ''Bonjour, monde'')"

definition french_events :: "g_event list" where
  "french_events =
     [Signal_approve (str_of ''alice''), Update_set_language_using_activity (OTHER 4),
      GreetingServiceEnds (Returned (Some french_greeting))]"

text \<open>The state while the greeting service is being called.\<close>

definition french_in_flight :: GreetingWorkflow where
  "french_in_flight =
     \<lparr> approved_for_release = True, approver_name = Some (str_of ''alice''),
       greetings = [CHINESE \<mapsto> chinese_greeting, ENGLISH \<mapsto> (str_of ''Hello, world'')],
       language = ENGLISH, lock = True, handlers = [AwaitingActivity (OTHER 4)],
       run_result = None,
       trace = [(LockAcquire, True), (ExecuteActivity (OTHER 4), True)] \<rparr>"

text \<open>The state after the update has finished, and after \<open>run\<close> has returned.\<close>

definition french_done :: GreetingWorkflow where
  "french_done =
     \<lparr> approved_for_release = True, approver_name = Some (str_of ''alice''),
       greetings = [CHINESE \<mapsto> chinese_greeting, ENGLISH \<mapsto> (str_of ''Hello, world''),
                    OTHER 4 \<mapsto> french_greeting],
       language = OTHER 4, lock = False, handlers = [],
       run_result = None,
       trace = [(LockAcquire, True), (ExecuteActivity (OTHER 4), True),
                (InsertGreeting (OTHER 4), True), (LockRelease, False),
                (SwapLanguage (OTHER 4), False)] \<rparr>"

definition french_returned :: GreetingWorkflow where
  "french_returned = french_done\<lparr>run_result := Some (Inr french_greeting)\<rparr>"

text \<open>
  The update for the unsupported language arrives on a fresh workflow, and the greeting
  service returns the empty string for it.
\<close>

definition empty_greeting_events :: "g_event list" where
  "empty_greeting_events =
     [Update_set_language_using_activity (OTHER 4), GreetingServiceEnds (Returned (Some []))]"

definition other_in_flight :: GreetingWorkflow where
  "other_in_flight =
     \<lparr> approved_for_release = False, approver_name = None,
       greetings = [CHINESE \<mapsto> chinese_greeting, ENGLISH \<mapsto> str_of ''Hello, world''],
       language = ENGLISH, lock = True, handlers = [AwaitingActivity (OTHER 4)],
       run_result = None,
       trace = [(LockAcquire, True), (ExecuteActivity (OTHER 4), True)] \<rparr>"

definition empty_greeting_done :: GreetingWorkflow where
  "empty_greeting_done =
     \<lparr> approved_for_release = False, approver_name = None,
       greetings = [CHINESE \<mapsto> chinese_greeting, ENGLISH \<mapsto> str_of ''Hello, world'',
                    OTHER 4 \<mapsto> []],
       language = OTHER 4, lock = False, handlers = [],
       run_result = None,
       trace = [(LockAcquire, True), (ExecuteActivity (OTHER 4), True),
                (InsertGreeting (OTHER 4), True), (LockRelease, False),
                (SwapLanguage (OTHER 4), False)] \<rparr>"

text \<open>
  Two updates for unsupported languages arrive one after the other; the greeting service
  has no greeting for the first. The second handler execution is then first in line for
  the free lock.
\<close>

definition waiter_events :: "g_event list" where
  "waiter_events =
     [Update_set_language_using_activity (OTHER 4), Update_set_language_using_activity (OTHER 5),
      GreetingServiceEnds (Returned None)]"

definition waiter_ready :: GreetingWorkflow where
  "waiter_ready =
     \<lparr> approved_for_release = False, approver_name = None,
       greetings = [CHINESE \<mapsto> chinese_greeting, ENGLISH \<mapsto> (str_of ''Hello, world'')],
       language = ENGLISH, lock = False, handlers = [AwaitingLock (OTHER 5)],
       run_result = None,
       trace = [(LockAcquire, True), (ExecuteActivity (OTHER 4), True),
                (LockRelease, False)] \<rparr>"


section \<open>Properties of the request/response workflow\<close>

subsection \<open>Auxiliary facts\<close>

lemma str_of_eq_iff [simp]: "str_of a = str_of b \<longleftrightarrow> a = b"
  unfolding str_of_def by (simp add: inj_map_eq_map inj_on_def)

text \<open>On ASCII text the result does not depend on the table.\<close>

lemma str_upper_foo:
  "str_upper U (str_of ''foo0'') = str_of ''FOO0''"
  "str_upper U (str_of ''foo1'') = str_of ''FOO1''"
  "str_upper U (str_of ''foo2'') = str_of ''FOO2''"
  "str_upper U (str_of ''foo3'') = str_of ''FOO3''"
  "str_upper U (str_of ''foo4'') = str_of ''FOO4''"
  by (simp_all add: str_upper_def to_upper_full_def str_of_def)

lemma responses_map_continue_check: "responses_map (continue_check s) = responses_map s"
  by (simp add: continue_check_def)

lemma responses_map_drain_loop: "responses_map (drain_loop s) = responses_map s"
  by (simp add: drain_loop_def responses_map_continue_check split: list.splits)

lemma responses_map_init:
  "responses_map (UppercaseWorkflowUpdate_init p) = previous_responses p"
  by (simp add: UppercaseWorkflowUpdate_init_def)

lemmas queue_defs =
  step_def request_def set_response_def activity_resolved_def drain_loop_def
  continue_check_def Let_def

lemmas scenario_defs =
  starter_params_def request_1_def request_2_def request_3_def request_4_def request_5_def
  UppercaseWorkflowUpdate_init_def uppercase_activity_def str_upper_foo

lemma step_continued:
  assumes "step U e s = Some s'" and "run_at s' = ContinuedAsNew np"
  shows "previous_responses np = responses_map s'"
    and "\<exists>req out. run_at s = AtExecuteActivity req \<and> e = ActivityEnds out"
    and "requests_buffer s' = []"
  using assms
  by (auto simp: queue_defs
      split: run_pc.splits event.splits if_splits list.splits activity_outcome.splits)

lemma queue_inv_init: "queue_inv (UppercaseWorkflowUpdate_init p)"
  by (simp add: queue_inv_def UppercaseWorkflowUpdate_init_def)

lemma queue_inv_step:
  assumes "step U e s = Some s'" and "queue_inv s"
  shows "queue_inv s'"
  using assms
  by (auto simp: queue_defs queue_inv_def
      split: run_pc.splits event.splits if_splits list.splits activity_outcome.splits)

lemma queue_inv_run:
  "run_events U es s = Some s' \<Longrightarrow> queue_inv s \<Longrightarrow> queue_inv s'"
  by (induction es arbitrary: s) (auto split: option.splits dest: queue_inv_step)

text \<open>Where an entry of the response table that is there after a step comes from.\<close>

lemma step_entry_origin:
  assumes "step U e s = Some s'" and "responses_map s' k = Some v"
  shows "responses_map s k = Some v \<or> e = Update_set_response k v \<or>
         (\<exists>req. e = ActivityEnds Completed \<and> run_at s = AtExecuteActivity req \<and> id' req = k \<and>
                v = uppercase_activity U (input req))"
  using assms
  by (auto simp: step_def request_def set_response_def activity_resolved_def Let_def
      responses_map_drain_loop
      split: run_pc.splits event.splits if_splits activity_outcome.splits)

lemma run_entry_origin:
  "run_events U es s = Some s' \<Longrightarrow> responses_map s' k = Some v \<Longrightarrow>
   responses_map s k = Some v \<or> Update_set_response k v \<in> set es \<or>
   (\<exists>req \<in> set (committed U es s). id' req = k \<and> v = uppercase_activity U (input req))"
proof (induction es arbitrary: s)
  case Nil
  then show ?case by simp
next
  case (Cons e es)
  from Cons.prems(1) obtain s1 where s1: "step U e s = Some s1" "run_events U es s1 = Some s'"
    by (auto split: option.splits)
  from Cons.IH[OF s1(2) Cons.prems(2)]
  consider "responses_map s1 k = Some v" | "Update_set_response k v \<in> set es"
    | "\<exists>req \<in> set (committed U es s1). id' req = k \<and> v = uppercase_activity U (input req)"
    by blast
  then show ?case
  proof cases
    case 1
    from step_entry_origin[OF s1(1) 1] show ?thesis using s1(1) by auto
  next
    case 2
    then show ?thesis by simp
  next
    case 3
    then show ?thesis using s1(1) by auto
  qed
qed

lemma poll_empty:
  "(\<forall>t \<in> set observed. responses_map t k = None \<or> responses_map t k = Some []) \<Longrightarrow>
   poll k observed = []"
  by (induction observed) (auto simp: get_response_def)

text \<open>The scenarios, evaluated.\<close>

lemma run_scenario_A:
  "run_events U scenario_A (UppercaseWorkflowUpdate_init starter_params) = Some answered_1"
  by (simp add: scenario_A_def answered_1_def scenario_defs queue_defs)

lemma committed_scenario_A:
  "committed U scenario_A (UppercaseWorkflowUpdate_init starter_params) = [request_1]"
  by (simp add: scenario_A_def scenario_defs queue_defs)

lemma run_scenario_C_prefix:
  "run_events U scenario_C_prefix (UppercaseWorkflowUpdate_init starter_params) = Some in_flight_5"
  by (simp add: scenario_C_prefix_def in_flight_5_def responses_4_def scenario_defs queue_defs)

lemma step_in_flight_5: "step U (ActivityEnds Completed) in_flight_5 = Some continued_5"
  by (simp add: in_flight_5_def continued_5_def carried_params_def scenario_defs queue_defs)

subsection \<open>A completed request is answered\<close>

text \<open>
  C1. When the activity of a dequeued request \<open>req\<close> completes, the loop resumes, and at
  its next suspension the response table maps the request's id to the uppercase form of
  its input (\<open>str.upper\<close>, whatever the table for the non-ASCII code points is), which is
  also what \<open>get_response\<close> returns for that id. In scenario A (request
  \<open>{id: "1", input: "foo0"}\<close> enqueued on a fresh workflow, then one drain cycle)
  \<open>get_response("1")\<close> is \<open>"FOO0"\<close>. The entry is the one of the latest write for the id:
  a later request carrying the same id, or a later \<open>set_response\<close> update for it,
  replaces it.
\<close>

theorem completed_request_is_answered:
  "(run_at s = AtExecuteActivity req \<longrightarrow>
      (\<exists>s'. step U (ActivityEnds Completed) s = Some s' \<and>
            responses_map s' (id' req) = Some (uppercase_activity U (input req)) \<and>
            get_response s' (id' req) = uppercase_activity U (input req)))
   \<and> (\<exists>s1. run_events U scenario_A (UppercaseWorkflowUpdate_init starter_params) = Some s1
         \<and> get_response s1 (str_of ''1'') = (str_of ''FOO0''))"
proof (intro conjI impI)
  assume "run_at s = AtExecuteActivity req"
  then show "\<exists>s'. step U (ActivityEnds Completed) s = Some s' \<and>
            responses_map s' (id' req) = Some (uppercase_activity U (input req)) \<and>
            get_response s' (id' req) = uppercase_activity U (input req)"
    by (simp add: step_def activity_resolved_def set_response_def get_response_def
        responses_map_drain_loop)
next
  show "\<exists>s1. run_events U scenario_A (UppercaseWorkflowUpdate_init starter_params) = Some s1
         \<and> get_response s1 (str_of ''1'') = (str_of ''FOO0'')"
    by (simp add: scenario_A_def starter_params_def request_1_def queue_defs
        UppercaseWorkflowUpdate_init_def get_response_def uppercase_activity_def str_upper_foo)
qed

theorem completed_request_is_answered_witness:
  "run_at in_flight_1 = AtExecuteActivity request_1
   \<and> (\<exists>s'. step scenario_upper (ActivityEnds Completed) in_flight_1 = Some s'
          \<and> responses_map s' (str_of ''1'') = Some (str_of ''FOO0'')
          \<and> get_response s' (str_of ''1'') = str_of ''FOO0'')
   \<and> run_at in_flight_strasse = AtExecuteActivity request_strasse
   \<and> (\<exists>s'. step scenario_upper (ActivityEnds Completed) in_flight_strasse = Some s'
          \<and> responses_map s' (str_of ''6'') = Some (str_of ''STRASSE'')
          \<and> get_response s' (str_of ''6'') = str_of ''STRASSE'')"
proof -
  have u: "uppercase_activity scenario_upper (input request_strasse) = str_of ''STRASSE''"
    by (simp add: request_strasse_def uppercase_activity_def str_upper_def to_upper_full_def
        scenario_upper_def str_of_def)
  have a: "run_at in_flight_1 = AtExecuteActivity request_1"
    and b: "run_at in_flight_strasse = AtExecuteActivity request_strasse"
    by (simp_all add: in_flight_1_def in_flight_strasse_def)
  have i: "id' request_1 = str_of ''1''" "id' request_strasse = str_of ''6''"
    "uppercase_activity scenario_upper (input request_1) = str_of ''FOO0''"
    by (simp_all add: request_1_def request_strasse_def uppercase_activity_def str_upper_foo)
  from completed_request_is_answered [of in_flight_1 request_1 scenario_upper]
       completed_request_is_answered [of in_flight_strasse request_strasse scenario_upper]
       a b i u
  show ?thesis by simp
qed

subsection \<open>Continue-as-new carries the response table over\<close>

text \<open>
  C2. When a step ends in continue-as-new with parameters \<open>np\<close>, the response table with
  which the next run starts (\<open>__init__\<close> applied to \<open>np\<close>) is the response table of the
  continuing run at that moment: every key present before is present afterwards with the
  same value, and nothing else is.
\<close>

theorem compaction_carries_responses:
  assumes "step U e s = Some s'" and "run_at s' = ContinuedAsNew np"
  shows "responses_map (UppercaseWorkflowUpdate_init np) = responses_map s'
       \<and> responses_map s' \<subseteq>\<^sub>m responses_map (UppercaseWorkflowUpdate_init np)"
  using step_continued(1)[OF assms] by (simp add: responses_map_init)

theorem compaction_carries_responses_witness:
  "step scenario_upper (ActivityEnds Completed) in_flight_5 = Some continued_5
   \<and> run_at continued_5 = ContinuedAsNew carried_params
   \<and> responses_map (UppercaseWorkflowUpdate_init carried_params) = responses_map continued_5
   \<and> responses_map continued_5 (str_of ''1'') = Some (str_of ''FOO0'')
   \<and> responses_map (UppercaseWorkflowUpdate_init carried_params) (str_of ''1'') = Some (str_of ''FOO0'')"
proof -
  have a: "step scenario_upper (ActivityEnds Completed) in_flight_5 = Some continued_5"
    by (rule step_in_flight_5)
  have b: "run_at continued_5 = ContinuedAsNew carried_params"
    by (simp add: continued_5_def)
  have c: "responses_map continued_5 (str_of ''1'') = Some (str_of ''FOO0'')"
    by (simp add: continued_5_def responses_4_def)
  from compaction_carries_responses[OF a b] a b c show ?thesis by simp
qed

subsection \<open>When continue-as-new is triggered\<close>

text \<open>
  C3. Let \<open>s\<close> be a state a run has reached from its start, and let a step from \<open>s\<close> end
  in continue-as-new. Then at that moment \<open>request_count\<close> is at least 5, which is the
  threshold, and \<open>pending_updates\<close> is 0. The step is the end of the activity \<open>run\<close> was
  waiting for, the only one outstanding (\<open>pending_updates\<close> was 1), and the buffer is
  drained: continue-as-new is not triggered while an activity for a dequeued request is
  outstanding.
\<close>

theorem compaction_only_when_idle:
  assumes "run_events U es (UppercaseWorkflowUpdate_init p) = Some s"
    and "step U e s = Some s'"
    and "run_at s' = ContinuedAsNew np"
  shows "request_count s' \<ge> 5 \<and> threshold_for_continue s' = 5 \<and> pending_updates s' = 0
       \<and> (\<exists>req out. run_at s = AtExecuteActivity req \<and> e = ActivityEnds out)
       \<and> pending_updates s = 1
       \<and> requests_buffer s' = []"
proof -
  have inv: "queue_inv s"
    using queue_inv_run[OF assms(1) queue_inv_init] .
  have inv': "queue_inv s'"
    using queue_inv_step[OF assms(2) inv] .
  from step_continued(2)[OF assms(2,3)] obtain req out
    where at: "run_at s = AtExecuteActivity req" "e = ActivityEnds out" by blast
  from inv at have "pending_updates s = 1" by (simp add: queue_inv_def)
  moreover from inv' assms(3)
  have "request_count s' \<ge> 5 \<and> threshold_for_continue s' = 5 \<and> pending_updates s' = 0"
    by (simp add: queue_inv_def)
  ultimately show ?thesis using at step_continued(3)[OF assms(2,3)] by simp
qed

theorem compaction_only_when_idle_witness:
  "run_events scenario_upper scenario_C_prefix (UppercaseWorkflowUpdate_init starter_params) = Some in_flight_5
   \<and> step scenario_upper (ActivityEnds Completed) in_flight_5 = Some continued_5
   \<and> run_at continued_5 = ContinuedAsNew carried_params
   \<and> request_count continued_5 \<ge> 5 \<and> pending_updates continued_5 = 0
   \<and> run_at in_flight_5 = AtExecuteActivity request_5
   \<and> pending_updates in_flight_5 = 1"
proof -
  have b: "run_at continued_5 = ContinuedAsNew carried_params"
    by (simp add: continued_5_def)
  from compaction_only_when_idle[OF run_scenario_C_prefix step_in_flight_5 b]
    run_scenario_C_prefix step_in_flight_5 b
  show ?thesis by (simp add: in_flight_5_def)
qed

subsection \<open>A failed activity\<close>

text \<open>
  C8. When the activity of a dequeued request \<open>req\<close> fails, the exception is caught: the
  step is defined, the id of \<open>req\<close> and nothing else is added to the error log, and the
  response table is left as it is, so no entry is written for the id. The request is not
  put back into the buffer. The loop goes on with the next buffered request if there is
  one; with an empty buffer the run goes back to waiting, or continues as new if the
  usual condition for that holds.
\<close>

theorem failed_activity_is_dropped:
  assumes "run_at s = AtExecuteActivity req"
  shows "\<exists>s'. step U (ActivityEnds Failed) s = Some s'
     \<and> responses_map s' = responses_map s
     \<and> error_log s' = error_log s @ [id' req]
     \<and> requests_buffer s' = tl (requests_buffer s)
     \<and> run_at s' =
         (case requests_buffer s of
            nxt # rest \<Rightarrow> AtExecuteActivity nxt
          | [] \<Rightarrow>
              if request_count s \<ge> threshold_for_continue s \<and> pending_updates s - 1 = 0
              then ContinuedAsNew \<lparr>initial_message = [], previous_responses = responses_map s\<rparr>
              else AtWaitCondition)"
  using assms
  by (auto simp: step_def activity_resolved_def drain_loop_def continue_check_def Let_def
      split: list.splits)

theorem failed_activity_is_dropped_witness:
  "run_at in_flight_1_of_2 = AtExecuteActivity request_1
   \<and> (\<exists>s'. step scenario_upper (ActivityEnds Failed) in_flight_1_of_2 = Some s'
          \<and> responses_map s' (str_of ''1'') = None
          \<and> get_response s' (str_of ''1'') = []
          \<and> error_log s' = [(str_of ''1'')]
          \<and> requests_buffer s' = []
          \<and> run_at s' = AtExecuteActivity request_2)"
  using failed_activity_is_dropped [of in_flight_1_of_2 request_1 scenario_upper]
  by (auto simp: in_flight_1_of_2_def request_1_def get_response_def)

subsection \<open>Where the entries of the response table come from\<close>

text \<open>
  C9, as claimed, fails: \<open>set_response\<close> is an update handler of its own, and a client
  that invokes it writes an entry for an id that no request was processed for. After the
  single update \<open>set_response("ghost", "boo")\<close> on a fresh workflow the table holds
  \<open>"ghost"\<close>, while no request has been enqueued, let alone processed.
\<close>

theorem external_set_response_counterexample:
  "run_events scenario_upper ghost_write (UppercaseWorkflowUpdate_init starter_params) = Some ghost_state
   \<and> responses_map ghost_state (str_of ''ghost'') = Some (str_of ''boo'')
   \<and> committed scenario_upper ghost_write (UppercaseWorkflowUpdate_init starter_params) = []"
  by (simp add: ghost_write_def ghost_state_def scenario_defs queue_defs)

text \<open>
  C9, amended. In every state that a run started with parameters \<open>p\<close> reaches by handler
  invocations interleaved with the loop, every entry \<open>k \<mapsto> v\<close> of the response table was
  carried in by \<open>p.previous_responses\<close>, or was written by a \<open>set_response(k, v)\<close> update
  of a client, or belongs to a request with id \<open>k\<close> that the loop has processed to the
  end, \<open>v\<close> being the uppercase form of its input.
\<close>

theorem response_entry_origin:
  assumes "run_events U es (UppercaseWorkflowUpdate_init p) = Some s"
    and "responses_map s k = Some v"
  shows "previous_responses p k = Some v
       \<or> Update_set_response k v \<in> set es
       \<or> (\<exists>req \<in> set (committed U es (UppercaseWorkflowUpdate_init p)).
             id' req = k \<and> v = uppercase_activity U (input req))"
  using run_entry_origin[OF assms] by (simp add: responses_map_init)

theorem response_entry_origin_witness:
  "run_events scenario_upper scenario_A (UppercaseWorkflowUpdate_init starter_params) = Some answered_1
   \<and> responses_map answered_1 (str_of ''1'') = Some (str_of ''FOO0'')
   \<and> previous_responses starter_params (str_of ''1'') = None
   \<and> Update_set_response (str_of ''1'') (str_of ''FOO0'') \<notin> set scenario_A
   \<and> committed scenario_upper scenario_A (UppercaseWorkflowUpdate_init starter_params) = [request_1]
   \<and> id' request_1 = (str_of ''1'') \<and> (str_of ''FOO0'') = uppercase_activity scenario_upper (input request_1)"
proof -
  have r: "responses_map answered_1 (str_of ''1'') = Some (str_of ''FOO0'')"
    by (simp add: answered_1_def)
  have n: "Update_set_response (str_of ''1'') (str_of ''FOO0'') \<notin> set scenario_A"
    by (simp add: scenario_A_def)
  have p: "previous_responses starter_params (str_of ''1'') = None"
    by (simp add: starter_params_def)
  have u: "id' request_1 = (str_of ''1'') \<and> (str_of ''FOO0'') = uppercase_activity scenario_upper (input request_1)"
    by (simp add: request_1_def uppercase_activity_def str_upper_foo)
  from response_entry_origin[OF run_scenario_A r] run_scenario_A r committed_scenario_A n p u
  show ?thesis by simp
qed

subsection \<open>The empty response\<close>

text \<open>
  C10. \<open>get_response\<close> returns the empty string exactly when the table has no entry for
  the id or has the empty string as its entry. The empty input uppercases to the empty
  string, so a completed request with empty input gets the empty string as its entry and
  \<open>get_response\<close> returns for it what it returns for an unknown id. The requester's
  polling loop, whatever states its queries read, returns the empty string (its value for
  "no response") as long as each of them has no entry or the empty entry for the id.
\<close>

theorem empty_response_unobservable:
  "uppercase_activity U [] = []
   \<and> (get_response s req_id = [] \<longleftrightarrow>
        responses_map s req_id = None \<or> responses_map s req_id = Some [])
   \<and> (run_at s = AtExecuteActivity req \<and> input req = [] \<longrightarrow>
        (\<exists>s'. step U (ActivityEnds Completed) s = Some s' \<and>
              responses_map s' (id' req) = Some [] \<and> get_response s' (id' req) = []))
   \<and> ((\<forall>t \<in> set observed. responses_map t req_id = None \<or> responses_map t req_id = Some [])
        \<longrightarrow> request_uppercase_poll req_id observed = [])"
proof (intro conjI impI)
  show "uppercase_activity U [] = []"
    by (simp add: uppercase_activity_def str_upper_def)
  show "get_response s req_id = [] \<longleftrightarrow>
        responses_map s req_id = None \<or> responses_map s req_id = Some []"
    by (simp add: get_response_def split: option.splits)
next
  assume "run_at s = AtExecuteActivity req \<and> input req = []"
  then show "\<exists>s'. step U (ActivityEnds Completed) s = Some s' \<and>
              responses_map s' (id' req) = Some [] \<and> get_response s' (id' req) = []"
    by (simp add: step_def activity_resolved_def set_response_def get_response_def
        responses_map_drain_loop uppercase_activity_def str_upper_def)
next
  assume a: "\<forall>t \<in> set observed. responses_map t req_id = None \<or> responses_map t req_id = Some []"
  have "\<forall>t \<in> set (take 20 observed).
          responses_map t req_id = None \<or> responses_map t req_id = Some []"
    using a by (meson in_set_takeD)
  then show "request_uppercase_poll req_id observed = []"
    unfolding request_uppercase_poll_def by (rule poll_empty)
qed

theorem empty_response_unobservable_witness:
  "run_at in_flight_empty = AtExecuteActivity request_empty \<and> input request_empty = []
   \<and> step scenario_upper (ActivityEnds Completed) in_flight_empty = Some answered_empty
   \<and> responses_map in_flight_empty (str_of ''e'') = None
   \<and> responses_map answered_empty (str_of ''e'') = Some []
   \<and> get_response in_flight_empty (str_of ''e'') = []
   \<and> get_response answered_empty (str_of ''e'') = []
   \<and> request_uppercase_poll (str_of ''e'') [in_flight_empty, answered_empty, answered_empty] = []"
proof -
  have s: "step scenario_upper (ActivityEnds Completed) in_flight_empty = Some answered_empty"
    by (simp add: in_flight_empty_def answered_empty_def request_empty_def queue_defs
        uppercase_activity_def str_upper_def)
  have o: "\<forall>t \<in> set [in_flight_empty, answered_empty, answered_empty].
             responses_map t (str_of ''e'') = None \<or> responses_map t (str_of ''e'') = Some []"
    by (simp add: in_flight_empty_def answered_empty_def)
  from empty_response_unobservable
         [of scenario_upper in_flight_empty "str_of ''e''" request_empty
             "[in_flight_empty, answered_empty, answered_empty]"] s o
  show ?thesis
    by (simp add: in_flight_empty_def answered_empty_def request_empty_def get_response_def)
qed

section \<open>Properties of the greeting workflow\<close>

subsection \<open>Auxiliary facts\<close>

lemmas greeting_defs =
  g_step_def approve_def get_language_def validate_language_def set_language_def
  set_language_update_def log_op_def swap_language_def lock_acquire_def lock_release_def
  set_language_using_activity_def lock_granted_def activity_ended_def
  all_handlers_finished_def run_return_def Let_def

lemma active_count_grant:
  "first_waiting hs = Some l \<Longrightarrow>
   length (filter (\<lambda>h. \<not> is_waiting h) (grant_first hs)) =
   Suc (length (filter (\<lambda>h. \<not> is_waiting h) hs))"
  by (induction hs rule: first_waiting.induct) auto

lemma active_count_remove:
  "active_language hs = Some l \<Longrightarrow>
   Suc (length (filter (\<lambda>h. \<not> is_waiting h) (remove_active hs))) =
   length (filter (\<lambda>h. \<not> is_waiting h) hs)"
  by (induction hs rule: active_language.induct) auto

lemma active_none_count:
  "active_language hs = None \<longleftrightarrow> length (filter (\<lambda>h. \<not> is_waiting h) hs) = 0"
  by (induction hs rule: active_language.induct) auto

lemma greeting_inv_init: "greeting_inv GreetingWorkflow_init"
  by (simp add: greeting_inv_def GreetingWorkflow_init_def)

lemma greeting_inv_step:
  assumes "g_step e s = Some (r, s')" and "greeting_inv s"
  shows "greeting_inv s'"
proof (cases e)
  case (Signal_approve name)
  with assms show ?thesis
    by (auto simp: greeting_defs greeting_inv_def split: if_splits option.splits)
next
  case Query_get_language
  with assms show ?thesis
    by (auto simp: greeting_defs greeting_inv_def split: if_splits option.splits)
next
  case (Update_set_language l)
  with assms show ?thesis
    by (auto simp: greeting_defs greeting_inv_def split: if_splits option.splits)
next
  case (Update_set_language_using_activity l)
  with assms show ?thesis
    by (auto simp: greeting_defs greeting_inv_def split: if_splits option.splits)
next
  case LockGranted
  with assms show ?thesis
    by (auto simp: greeting_defs greeting_inv_def active_count_grant
        split: if_splits option.splits)
next
  case (GreetingServiceEnds out)
  with assms obtain l where l: "active_language (handlers s) = Some l"
    and nr: "run_result s = None"
    by (auto simp: g_step_def split: if_splits option.splits)
  from l have pos: "length (filter (\<lambda>h. \<not> is_waiting h) (handlers s)) \<noteq> 0"
    using active_none_count[of "handlers s"] by simp
  with assms(2) have lk: "lock s" by (auto simp: greeting_inv_def split: if_splits)
  with assms(2) have one: "length (filter (\<lambda>h. \<not> is_waiting h) (handlers s)) = 1"
    by (simp add: greeting_inv_def)
  with active_count_remove[OF l]
  have zero: "length (filter (\<lambda>h. \<not> is_waiting h) (remove_active (handlers s))) = 0" by simp
  from assms GreetingServiceEnds l nr zero show ?thesis
    by (auto simp: greeting_defs greeting_inv_def
        split: if_splits option.splits greeting_service_outcome.splits)
next
  case RunConditionMet
  with assms show ?thesis
    by (auto simp: greeting_defs greeting_inv_def split: if_splits option.splits)
qed

lemma greeting_inv_run:
  "g_run_events es s = Some s' \<Longrightarrow> greeting_inv s \<Longrightarrow> greeting_inv s'"
  by (induction es arbitrary: s) (auto split: option.splits dest: greeting_inv_step)

text \<open>Only the end of the activity with a greeting changes \<open>greetings\<close>.\<close>

lemma greetings_change:
  assumes "g_step e s = Some (r, t)" and "greetings t \<noteq> greetings s"
  shows "\<exists>g l. e = GreetingServiceEnds (Returned (Some g)) \<and>
               active_language (handlers s) = Some l \<and> greetings t = (greetings s)(l \<mapsto> g)"
  using assms
  by (cases e)
     (auto simp: greeting_defs
        split: if_splits option.splits greeting_service_outcome.splits sum.splits)

lemma run_french_prefix:
  "g_run_events [Signal_approve (str_of ''alice''), Update_set_language_using_activity (OTHER 4)]
     GreetingWorkflow_init = Some french_in_flight"
  by (simp add: french_in_flight_def GreetingWorkflow_init_def greeting_defs)

lemma step_french_in_flight:
  "g_step (GreetingServiceEnds (Returned (Some french_greeting))) french_in_flight
     = Some (Replied ENGLISH, french_done)"
  by (simp add: french_in_flight_def french_done_def greeting_defs)

lemma run_french_events: "g_run_events french_events GreetingWorkflow_init = Some french_done"
  by (simp add: french_events_def french_done_def GreetingWorkflow_init_def greeting_defs)

lemma run_french_returned:
  "g_run_events (french_events @ [RunConditionMet]) GreetingWorkflow_init = Some french_returned"
  by (simp add: french_events_def french_returned_def french_done_def GreetingWorkflow_init_def
      greeting_defs)

lemma run_waiter_events: "g_run_events waiter_events GreetingWorkflow_init = Some waiter_ready"
  by (simp add: waiter_events_def waiter_ready_def GreetingWorkflow_init_def greeting_defs)

subsection \<open>When the run method returns\<close>

text \<open>
  C4. In every state the greeting workflow reaches: if \<open>run\<close> has returned \<open>r\<close>, then the
  approval was given, no execution of an update handler was unfinished, and \<open>r\<close> is the
  greeting stored for the current language. As long as the approval is missing or an
  execution of \<open>set_language_using_activity\<close> is unfinished, the wait condition of \<open>run\<close>
  cannot be met, so \<open>run\<close> does not return.
\<close>

theorem run_returns_only_when_idle:
  assumes "g_run_events es GreetingWorkflow_init = Some s"
  shows "(run_result s = Some r \<longrightarrow>
            approved_for_release s \<and> all_handlers_finished s \<and>
            (\<exists>g. greetings s (language s) = Some g \<and> r = Inr g))
       \<and> (\<not> approved_for_release s \<or> handlers s \<noteq> [] \<longrightarrow> g_step RunConditionMet s = None)"
proof -
  have inv: "greeting_inv s"
    using greeting_inv_run[OF assms greeting_inv_init] .
  then have "run_result s = Some r \<longrightarrow>
            approved_for_release s \<and> all_handlers_finished s \<and>
            (\<exists>g. greetings s (language s) = Some g \<and> r = Inr g)"
    by (auto simp: greeting_inv_def all_handlers_finished_def split: option.splits)
  moreover have "\<not> approved_for_release s \<or> handlers s \<noteq> [] \<longrightarrow> g_step RunConditionMet s = None"
    by (auto simp: g_step_def all_handlers_finished_def)
  ultimately show ?thesis by blast
qed

theorem run_returns_only_when_idle_witness:
  "g_run_events [Signal_approve (str_of ''alice''), Update_set_language_using_activity (OTHER 4)]
     GreetingWorkflow_init = Some french_in_flight
   \<and> approved_for_release french_in_flight \<and> handlers french_in_flight \<noteq> []
   \<and> g_step RunConditionMet french_in_flight = None
   \<and> g_run_events (french_events @ [RunConditionMet]) GreetingWorkflow_init = Some french_returned
   \<and> run_result french_returned = Some (Inr french_greeting)
   \<and> approved_for_release french_returned \<and> all_handlers_finished french_returned
   \<and> greetings french_returned (language french_returned) = Some french_greeting"
proof -
  have h: "handlers french_in_flight \<noteq> []" "approved_for_release french_in_flight"
    by (simp_all add: french_in_flight_def)
  have r: "run_result french_returned = Some (Inr french_greeting)"
    by (simp add: french_returned_def)
  from run_returns_only_when_idle[OF run_french_prefix, of "Inr french_greeting"]
       run_returns_only_when_idle[OF run_french_returned, of "Inr french_greeting"]
       run_french_prefix run_french_returned h r
  show ?thesis by auto
qed

subsection \<open>The validated update\<close>

text \<open>
  C5. For a language that is not a key of \<open>greetings\<close> the validator raises, the update
  is rejected and the state is the one before: the current language is unchanged and
  nothing is inserted. For a language that is a key, the validator passes, the current
  language becomes the new one and the previous one is returned. In both cases
  \<open>greetings\<close> stays as it is.
\<close>

theorem set_language_validated:
  "(greetings s l = None \<longrightarrow>
      validate_language s l = Inl ValueError \<and> set_language_update s l = (Inl ValueError, s))
   \<and> (greetings s l \<noteq> None \<longrightarrow>
      validate_language s l = Inr () \<and>
      set_language_update s l = (Inr (language s), s\<lparr>language := l\<rparr>))
   \<and> greetings (snd (set_language_update s l)) = greetings s"
  by (auto simp: validate_language_def set_language_update_def set_language_def)

theorem set_language_validated_witness:
  "greetings GreetingWorkflow_init (OTHER 4) = None
   \<and> set_language_update GreetingWorkflow_init (OTHER 4) = (Inl ValueError, GreetingWorkflow_init)
   \<and> greetings GreetingWorkflow_init CHINESE \<noteq> None
   \<and> set_language_update GreetingWorkflow_init CHINESE
       = (Inr ENGLISH, GreetingWorkflow_init\<lparr>language := CHINESE\<rparr>)"
proof -
  have a: "greetings GreetingWorkflow_init (OTHER 4) = None"
    by (simp add: GreetingWorkflow_init_def)
  have b: "greetings GreetingWorkflow_init CHINESE \<noteq> None"
    by (simp add: GreetingWorkflow_init_def)
  have c: "language GreetingWorkflow_init = ENGLISH"
    by (simp add: GreetingWorkflow_init_def)
  from set_language_validated[of GreetingWorkflow_init "OTHER 4"] set_language_validated[of GreetingWorkflow_init CHINESE] a b c
  show ?thesis by simp
qed

subsection \<open>The greeting service has no greeting\<close>

text \<open>
  C6, as claimed, fails for the empty result: the handler tests \<open>greeting is None\<close>, and
  the empty string is not \<open>None\<close>. When the greeting service returns the empty string for
  the unsupported language \<open>OTHER 4\<close>, the update does not fail: it replies with the
  previous language, the empty string is inserted into \<open>greetings\<close>, and the current
  language is swapped.
\<close>

theorem empty_greeting_is_inserted_counterexample:
  "g_run_events empty_greeting_events GreetingWorkflow_init = Some empty_greeting_done
   \<and> g_step (GreetingServiceEnds (Returned (Some []))) other_in_flight
       = Some (Replied ENGLISH, empty_greeting_done)
   \<and> greetings other_in_flight (OTHER 4) = None
   \<and> greetings empty_greeting_done (OTHER 4) = Some []
   \<and> language other_in_flight = ENGLISH
   \<and> language empty_greeting_done = OTHER 4"
  by (simp add: empty_greeting_events_def empty_greeting_done_def other_in_flight_def
      GreetingWorkflow_init_def greeting_defs)

text \<open>
  C6, amended. Let an execution of \<open>set_language_using_activity\<close> for language \<open>l\<close> wait
  for the greeting service. If the service returns \<open>None\<close>, the update fails with
  \<open>ApplicationError\<close>, the lock is released, and neither \<open>greetings\<close> nor the current
  language changes. If it returns a greeting \<open>g\<close>, which may be the empty string, the
  update replies with the previous language, \<open>l \<mapsto> g\<close> is inserted, \<open>l\<close> becomes the
  current language and the lock is released. A step changes \<open>greetings\<close> only if it is
  the end of the activity with such a greeting, and then the change is that insertion.
\<close>

theorem absent_greeting_fails_update:
  assumes "run_result s = None" and "active_language (handlers s) = Some l"
  shows "(\<exists>s'. g_step (GreetingServiceEnds (Returned None)) s
               = Some (Failed_with ApplicationError, s')
             \<and> \<not> lock s' \<and> greetings s' = greetings s \<and> language s' = language s
             \<and> trace s' = trace s @ [(LockRelease, False)])
       \<and> (\<exists>s'. g_step (GreetingServiceEnds (Returned (Some g))) s
               = Some (Replied (language s), s')
             \<and> \<not> lock s' \<and> greetings s' = (greetings s)(l \<mapsto> g) \<and> language s' = l)
       \<and> (g_step e s = Some (r, t) \<and> greetings t \<noteq> greetings s \<longrightarrow>
            (\<exists>g'. e = GreetingServiceEnds (Returned (Some g')) \<and>
                  greetings t = (greetings s)(l \<mapsto> g')))"
proof (intro conjI impI)
  show "\<exists>s'. g_step (GreetingServiceEnds (Returned None)) s
               = Some (Failed_with ApplicationError, s')
             \<and> \<not> lock s' \<and> greetings s' = greetings s \<and> language s' = language s
             \<and> trace s' = trace s @ [(LockRelease, False)]"
    using assms by (simp add: greeting_defs)
next
  show "\<exists>s'. g_step (GreetingServiceEnds (Returned (Some g))) s
               = Some (Replied (language s), s')
             \<and> \<not> lock s' \<and> greetings s' = (greetings s)(l \<mapsto> g) \<and> language s' = l"
    using assms by (simp add: greeting_defs)
next
  assume "g_step e s = Some (r, t) \<and> greetings t \<noteq> greetings s"
  then show "\<exists>g'. e = GreetingServiceEnds (Returned (Some g')) \<and>
                  greetings t = (greetings s)(l \<mapsto> g')"
    using greetings_change[of e s r t] assms(2) by auto
qed

theorem absent_greeting_fails_update_witness:
  "run_result french_in_flight = None
   \<and> active_language (handlers french_in_flight) = Some (OTHER 4)
   \<and> (\<exists>s'. g_step (GreetingServiceEnds (Returned None)) french_in_flight
               = Some (Failed_with ApplicationError, s')
          \<and> \<not> lock s' \<and> greetings s' (OTHER 4) = None \<and> language s' = ENGLISH)
   \<and> (\<exists>s'. g_step (GreetingServiceEnds (Returned (Some []))) french_in_flight
               = Some (Replied ENGLISH, s')
          \<and> \<not> lock s' \<and> greetings s' (OTHER 4) = Some [] \<and> language s' = OTHER 4)
   \<and> g_step (GreetingServiceEnds (Returned (Some french_greeting))) french_in_flight
       = Some (Replied ENGLISH, french_done)
   \<and> greetings french_done \<noteq> greetings french_in_flight
   \<and> greetings french_done = (greetings french_in_flight)(OTHER 4 \<mapsto> french_greeting)"
proof -
  have a: "run_result french_in_flight = None"
    and b: "active_language (handlers french_in_flight) = Some (OTHER 4)"
    and c: "greetings french_in_flight (OTHER 4) = None" "language french_in_flight = ENGLISH"
    by (simp_all add: french_in_flight_def)
  have d: "greetings french_done \<noteq> greetings french_in_flight"
  proof
    assume "greetings french_done = greetings french_in_flight"
    then have "greetings french_done (OTHER 4) = greetings french_in_flight (OTHER 4)" by simp
    then show False by (simp add: french_done_def french_in_flight_def)
  qed
  from absent_greeting_fails_update
         [OF a b, of "[]" "GreetingServiceEnds (Returned (Some french_greeting))"
             "Replied ENGLISH" french_done]
       a b c d step_french_in_flight
  show ?thesis by auto
qed

subsection \<open>What the lock covers\<close>

text \<open>
  C7, as claimed, fails: the swap of the current language is the statement after the
  \<open>async with\<close> block, so it is executed once the lock has been released. In scenario B
  the history ends with the release followed by the swap, the swap with the lock's flag
  off.
\<close>

theorem swap_after_release_counterexample:
  "g_run_events french_events GreetingWorkflow_init = Some french_done
   \<and> trace french_done =
       [(LockAcquire, True), (ExecuteActivity (OTHER 4), True),
        (InsertGreeting (OTHER 4), True), (LockRelease, False),
        (SwapLanguage (OTHER 4), False)]"
  using run_french_events by (simp add: french_done_def)

text \<open>
  C7, amended. The lock covers the call of the greeting service and the insertion into
  \<open>greetings\<close>, and nothing else. A handler execution for an unsupported language takes
  the lock (at once if it is free and nobody waits, or when it is first in line after a
  release) and starts the activity with the lock held. When the activity returns a
  greeting, the handler inserts it with the lock held, releases the lock, and then swaps
  the current language with the lock released; the three happen in one step, with no
  suspension between them.
\<close>

theorem lock_covers_activity_and_insertion:
  assumes "g_run_events es GreetingWorkflow_init = Some s"
  shows "(run_result s = None \<and> greetings s l = None \<and> \<not> lock s \<and>
          \<not> list_ex is_waiting (handlers s) \<longrightarrow>
            (\<exists>s'. g_step (Update_set_language_using_activity l) s = Some (Suspended, s')
                 \<and> trace s' = trace s @ [(LockAcquire, True), (ExecuteActivity l, True)]
                 \<and> lock s' \<and> greetings s' = greetings s \<and> language s' = language s))
       \<and> (run_result s = None \<and> \<not> lock s \<and> first_waiting (handlers s) = Some l \<longrightarrow>
            (\<exists>s'. g_step LockGranted s = Some (Suspended, s')
                 \<and> trace s' = trace s @ [(LockAcquire, True), (ExecuteActivity l, True)]
                 \<and> lock s' \<and> greetings s' = greetings s \<and> language s' = language s))
       \<and> (active_language (handlers s) = Some l \<longrightarrow>
            lock s \<and>
            (\<exists>s'. g_step (GreetingServiceEnds (Returned (Some g))) s
                     = Some (Replied (language s), s')
                 \<and> trace s' = trace s @ [(InsertGreeting l, True), (LockRelease, False),
                                          (SwapLanguage l, False)]
                 \<and> greetings s' = (greetings s)(l \<mapsto> g) \<and> language s' = l \<and> \<not> lock s'))"
proof (intro conjI impI)
  assume "run_result s = None \<and> greetings s l = None \<and> \<not> lock s \<and>
          \<not> list_ex is_waiting (handlers s)"
  then show "\<exists>s'. g_step (Update_set_language_using_activity l) s = Some (Suspended, s')
                 \<and> trace s' = trace s @ [(LockAcquire, True), (ExecuteActivity l, True)]
                 \<and> lock s' \<and> greetings s' = greetings s \<and> language s' = language s"
    by (simp add: greeting_defs)
next
  assume "run_result s = None \<and> \<not> lock s \<and> first_waiting (handlers s) = Some l"
  then show "\<exists>s'. g_step LockGranted s = Some (Suspended, s')
                 \<and> trace s' = trace s @ [(LockAcquire, True), (ExecuteActivity l, True)]
                 \<and> lock s' \<and> greetings s' = greetings s \<and> language s' = language s"
    by (simp add: greeting_defs)
next
  assume l: "active_language (handlers s) = Some l"
  have inv: "greeting_inv s"
    using greeting_inv_run[OF assms greeting_inv_init] .
  from l have "length (filter (\<lambda>h. \<not> is_waiting h) (handlers s)) \<noteq> 0"
    using active_none_count[of "handlers s"] by simp
  with inv show lk: "lock s" by (auto simp: greeting_inv_def split: if_splits)
  from l have "handlers s \<noteq> []" by auto
  with inv have nr: "run_result s = None"
    by (auto simp: greeting_inv_def split: option.splits)
  from l nr lk
  show "\<exists>s'. g_step (GreetingServiceEnds (Returned (Some g))) s
                     = Some (Replied (language s), s')
                 \<and> trace s' = trace s @ [(InsertGreeting l, True), (LockRelease, False),
                                          (SwapLanguage l, False)]
                 \<and> greetings s' = (greetings s)(l \<mapsto> g) \<and> language s' = l \<and> \<not> lock s'"
    by (simp add: greeting_defs)
qed

theorem lock_covers_activity_and_insertion_witness:
  "g_run_events [] GreetingWorkflow_init = Some GreetingWorkflow_init
   \<and> run_result GreetingWorkflow_init = None \<and> greetings GreetingWorkflow_init (OTHER 4) = None
   \<and> \<not> lock GreetingWorkflow_init \<and> \<not> list_ex is_waiting (handlers GreetingWorkflow_init)
   \<and> (\<exists>s'. g_step (Update_set_language_using_activity (OTHER 4)) GreetingWorkflow_init
              = Some (Suspended, s')
          \<and> trace s' = [(LockAcquire, True), (ExecuteActivity (OTHER 4), True)] \<and> lock s')
   \<and> g_run_events waiter_events GreetingWorkflow_init = Some waiter_ready
   \<and> run_result waiter_ready = None \<and> \<not> lock waiter_ready
   \<and> first_waiting (handlers waiter_ready) = Some (OTHER 5)
   \<and> (\<exists>s'. g_step LockGranted waiter_ready = Some (Suspended, s')
          \<and> trace s' = trace waiter_ready @ [(LockAcquire, True), (ExecuteActivity (OTHER 5), True)]
          \<and> lock s')
   \<and> g_run_events [Signal_approve (str_of ''alice''), Update_set_language_using_activity (OTHER 4)]
        GreetingWorkflow_init = Some french_in_flight
   \<and> active_language (handlers french_in_flight) = Some (OTHER 4)
   \<and> lock french_in_flight
   \<and> (\<exists>s'. g_step (GreetingServiceEnds (Returned (Some french_greeting))) french_in_flight
              = Some (Replied ENGLISH, s')
          \<and> trace s' = trace french_in_flight @
               [(InsertGreeting (OTHER 4), True), (LockRelease, False),
                (SwapLanguage (OTHER 4), False)]
          \<and> language s' = OTHER 4 \<and> \<not> lock s')"
proof -
  have i: "g_run_events [] GreetingWorkflow_init = Some GreetingWorkflow_init" by simp
  have a: "run_result GreetingWorkflow_init = None" "greetings GreetingWorkflow_init (OTHER 4) = None"
    "\<not> lock GreetingWorkflow_init" "\<not> list_ex is_waiting (handlers GreetingWorkflow_init)"
    "trace GreetingWorkflow_init = []"
    by (simp_all add: GreetingWorkflow_init_def)
  have b: "run_result waiter_ready = None" "\<not> lock waiter_ready"
    "first_waiting (handlers waiter_ready) = Some (OTHER 5)"
    by (simp_all add: waiter_ready_def)
  have c: "active_language (handlers french_in_flight) = Some (OTHER 4)"
    "language french_in_flight = ENGLISH"
    by (simp_all add: french_in_flight_def)
  from lock_covers_activity_and_insertion[OF i, of "OTHER 4"] a
  have p1: "\<exists>s'. g_step (Update_set_language_using_activity (OTHER 4)) GreetingWorkflow_init
              = Some (Suspended, s')
          \<and> trace s' = [(LockAcquire, True), (ExecuteActivity (OTHER 4), True)] \<and> lock s'"
    by auto
  from lock_covers_activity_and_insertion[OF run_waiter_events, of "OTHER 5"] b
  have p2: "\<exists>s'. g_step LockGranted waiter_ready = Some (Suspended, s')
          \<and> trace s' = trace waiter_ready @ [(LockAcquire, True), (ExecuteActivity (OTHER 5), True)]
          \<and> lock s'"
    by auto
  from lock_covers_activity_and_insertion[OF run_french_prefix, of "OTHER 4" french_greeting] c
  have p3: "lock french_in_flight
   \<and> (\<exists>s'. g_step (GreetingServiceEnds (Returned (Some french_greeting))) french_in_flight
              = Some (Replied ENGLISH, s')
          \<and> trace s' = trace french_in_flight @
               [(InsertGreeting (OTHER 4), True), (LockRelease, False),
                (SwapLanguage (OTHER 4), False)]
          \<and> language s' = OTHER 4 \<and> \<not> lock s')"
    by auto
  from i a b c p1 p2 p3 run_waiter_events run_french_prefix show ?thesis by blast
qed

end
